theory Spec2Isabelle
  imports Complex_Main
begin

section \<open>Tensors and memory\<close>

text \<open>
  Memory is one address space, a list of cells; an address is an index into it, counted in
  elements. A tensor of the host library is a descriptor: its shape, its strides (in
  elements), its element type, its residency, and \<open>data_ptr\<close>, the address of its first
  element (a view that starts inside a storage has the storage offset in its pointer, as
  \<open>x.data_ptr()\<close> has). The element of a tensor at the coordinates \<open>i\<^sub>1, \<dots>, i\<^sub>k\<close> is the
  cell at \<open>data_ptr + i\<^sub>1 * stride\<^sub>1 + \<dots> + i\<^sub>k * stride\<^sub>k\<close>. The element type \<open>'a\<close> stands
  for the values of the tensor's dtype, with the addition \<open>+\<close> of that dtype.
\<close>

datatype device = CPU | CUDA

datatype dtype = Bool | UInt8 | Int8 | Int16 | Int32 | Int64 | Float16 | Float32 | Float64

record tensor =
  shape :: "nat list"
  stride :: "nat list"
  dtype :: dtype
  device :: device
  data_ptr :: nat

type_synonym 'a memory = "'a list"

text \<open>
  The exceptions of the program: the three assertions of \<open>triton_add\<close> (the first is also
  the assertion of \<open>add_tensors\<close>) and the two errors the host library's addition raises.
  \<open>IllegalMemoryAccess\<close> is the fault of the device when a program instance accesses an
  address that is not mapped.
\<close>

datatype error =
    ShapeAssertion
  | DeviceAssertion
  | DtypeAssertion
  | IllegalMemoryAccess
  | BroadcastError
  | DeviceMismatch

definition numel :: "tensor \<Rightarrow> nat" where
  "numel t = prod_list (shape t)"

definition is_cuda :: "tensor \<Rightarrow> bool" where
  "is_cuda t = (device t = CUDA)"

text \<open>The offsets, from the first element, of the elements of a tensor of the given shape
  and strides, in row-major order of the coordinates.\<close>

fun strided_offsets :: "nat list \<Rightarrow> nat list \<Rightarrow> nat list" where
  "strided_offsets [] ss = [0]"
| "strided_offsets (d # ds) [] = concat (map (\<lambda>i. strided_offsets ds []) [0..<d])"
| "strided_offsets (d # ds) (s # ss) =
     concat (map (\<lambda>i. map (\<lambda>off. i * s + off) (strided_offsets ds ss)) [0..<d])"

text \<open>The elements of a tensor, in row-major order: what \<open>x[i]\<close> means for the flat index
  \<open>i\<close>, whatever the strides.\<close>

definition elems :: "'a memory \<Rightarrow> tensor \<Rightarrow> 'a list" where
  "elems mem t = map (\<lambda>off. mem ! (data_ptr t + off)) (strided_offsets (shape t) (stride t))"

text \<open>A tensor is valid in a memory when it has one stride for each dimension and all its
  elements are cells of the memory.\<close>

definition valid_tensor :: "'a memory \<Rightarrow> tensor \<Rightarrow> bool" where
  "valid_tensor mem t =
     (length (stride t) = length (shape t) \<and>
      list_all (\<lambda>off. data_ptr t + off < length mem) (strided_offsets (shape t) (stride t)))"

fun contiguous_strides :: "nat list \<Rightarrow> nat list" where
  "contiguous_strides [] = []"
| "contiguous_strides (d # ds) = prod_list ds # contiguous_strides ds"

text \<open>A tensor is contiguous when its element of flat index \<open>i\<close> is the cell
  \<open>data_ptr + i\<close>: the strides of a dimension of size 1 do not matter, and a tensor without
  elements is contiguous.\<close>

definition is_contiguous :: "tensor \<Rightarrow> bool" where
  "is_contiguous t = (strided_offsets (shape t) (stride t) = [0..<numel t])"

text \<open>
  The host library's test for a tensor that fills its memory without gap or overlap, in some
  order of its dimensions: the dimensions of size at least 2, sorted by stride, have
  strides 1, then the size of the first, then the product of the sizes of the first two,
  and so on. Each pair is a stride and the size of its dimension.
\<close>

fun dense_chain :: "nat \<Rightarrow> (nat \<times> nat) list \<Rightarrow> bool" where
  "dense_chain r [] = True"
| "dense_chain r ((s, d) # ps) = (s = r \<and> dense_chain (r * d) ps)"

definition non_overlapping_and_dense :: "nat list \<Rightarrow> nat list \<Rightarrow> bool" where
  "non_overlapping_and_dense sh st =
     dense_chain 1 (sort_key fst (filter (\<lambda>(s, d). 2 \<le> d) (zip st sh)))"

section \<open>The kernel language\<close>

text \<open>
  Inside a kernel, \<open>tl.program_id\<close> and \<open>tl.arange\<close> are 32-bit signed integers and so is
  every sum and product of them: \<open>wrap32\<close> is the two's complement wrap-around. The element
  count is passed at the width its value needs, so the comparison \<open>offsets < n_elements\<close>
  compares the wrapped offset with the exact count. A pointer is an address of 64 bits:
  \<open>ptr + offsets\<close> adds each offset, negative or not, to the address, exactly.
\<close>

definition wrap32 :: "int \<Rightarrow> int" where
  "wrap32 i = (i + 2 ^ 31) mod 2 ^ 32 - 2 ^ 31"

definition arange :: "nat \<Rightarrow> int list" where
  "arange n = map int [0..<n]"

definition ptr_add :: "nat \<Rightarrow> int list \<Rightarrow> int list" where
  "ptr_add p offsets = map (\<lambda>off. int p + off) offsets"

definition in_range :: "'a memory \<Rightarrow> int \<Rightarrow> bool" where
  "in_range mem a = (0 \<le> a \<and> a < int (length mem))"

definition lanes_ok :: "'a memory \<Rightarrow> int list \<Rightarrow> bool list \<Rightarrow> bool" where
  "lanes_ok mem ptrs msk =
     list_all (\<lambda>(a, m). if m then in_range mem a else True) (zip ptrs msk)"

text \<open>\<open>tl.load(ptrs, mask=mask, other=other)\<close>: a lane whose mask is false reads nothing
  and yields \<open>other\<close>; a lane whose mask is true reads the cell at its address, whichever
  tensor that cell belongs to; at an address that is not mapped the device faults.\<close>

definition tl_load :: "'a memory \<Rightarrow> int list \<Rightarrow> bool list \<Rightarrow> 'a \<Rightarrow> error + 'a list" where
  "tl_load mem ptrs msk other =
     (if lanes_ok mem ptrs msk
      then Inr (map (\<lambda>(a, m). if m then mem ! nat a else other) (zip ptrs msk))
      else Inl IllegalMemoryAccess)"

fun store_lanes :: "'a memory \<Rightarrow> (int \<times> 'a \<times> bool) list \<Rightarrow> 'a memory" where
  "store_lanes mem [] = mem"
| "store_lanes mem ((a, v, m) # ls) = store_lanes (if m then mem[nat a := v] else mem) ls"

text \<open>\<open>tl.store(ptrs, value, mask=mask)\<close>: only the lanes whose mask is true write, each to
  the cell at its address, whichever tensor that cell belongs to.\<close>

definition tl_store :: "'a memory \<Rightarrow> int list \<Rightarrow> 'a list \<Rightarrow> bool list \<Rightarrow> error + 'a memory" where
  "tl_store mem ptrs vals msk =
     (if lanes_ok mem ptrs msk
      then Inr (store_lanes mem (zip ptrs (zip vals msk)))
      else Inl IllegalMemoryAccess)"

text \<open>The offsets at which a masked store writes.\<close>

definition stored_offsets :: "int list \<Rightarrow> bool list \<Rightarrow> int list" where
  "stored_offsets offsets msk = map fst (filter snd (zip offsets msk))"

text \<open>
  A grid runs one program instance per grid index. \<open>launch\<close> is what the device does:
  the memory the instances leave, or the fault of the first instance that faults. The
  instances run here in the order of their indices; on the device they run in any order.
  Wherever a theorem below gives the content of a cell after a grid, that cell is written
  by one instance at most, from cells that no instance writes, so the order does not matter.
\<close>

fun launch :: "(nat \<Rightarrow> 'm \<Rightarrow> error + 'm) \<Rightarrow> nat list \<Rightarrow> 'm \<Rightarrow> error + 'm" where
  "launch k [] mem = Inr mem"
| "launch k (pid # pids) mem =
     (case k pid mem of Inl e \<Rightarrow> Inl e | Inr mem' \<Rightarrow> launch k pids mem')"

text \<open>
  \<open>launch_async\<close> is what the host sees of \<open>kernel[grid](...)\<close>: the call enqueues the grid
  and returns, and neither \<open>triton_add\<close> nor \<open>add_tensors\<close> synchronises after it, so no
  exception of the device reaches them. The instances run as in \<open>launch\<close>; a fault ends the
  grid, and memory is then what the instances before it left.
\<close>

fun launch_async :: "(nat \<Rightarrow> 'm \<Rightarrow> error + 'm) \<Rightarrow> nat list \<Rightarrow> 'm \<Rightarrow> 'm" where
  "launch_async k [] mem = mem"
| "launch_async k (pid # pids) mem =
     (case k pid mem of Inl e \<Rightarrow> mem | Inr mem' \<Rightarrow> launch_async k pids mem')"

definition cdiv :: "nat \<Rightarrow> nat \<Rightarrow> nat" where
  "cdiv x d = (x + d - 1) div d"

text \<open>
  \<open>torch.empty_like\<close>: a new storage of as many cells as the argument has elements, whose
  content \<open>junk\<close> is whatever the allocator left there, and a descriptor like the
  argument's. The new storage is allocated at the end of memory. The result keeps the
  strides of an argument that is non-overlapping and dense, and is contiguous otherwise
  (the library's rule for \<open>torch.preserve_format\<close>).
\<close>

definition empty_like :: "(nat \<Rightarrow> 'a) \<Rightarrow> tensor \<Rightarrow> 'a memory \<Rightarrow> 'a memory \<times> tensor" where
  "empty_like junk x mem =
     (mem @ map junk [0..<numel x],
      x\<lparr>stride := (if non_overlapping_and_dense (shape x) (stride x) then stride x
                   else contiguous_strides (shape x)),
        data_ptr := length mem\<rparr>)"

section \<open>pgl/ops/add.py: the kernel executor\<close>

definition kernel_offsets :: "nat \<Rightarrow> nat \<Rightarrow> int list" where
  "kernel_offsets BLOCK_SIZE pid =
     (let block_start = wrap32 (int pid * int BLOCK_SIZE)
      in map (\<lambda>k. wrap32 (block_start + k)) (arange BLOCK_SIZE))"

definition kernel_mask :: "int \<Rightarrow> int list \<Rightarrow> bool list" where
  "kernel_mask n_elements offsets = map (\<lambda>off. off < n_elements) offsets"

definition add_kernel ::
  "nat \<Rightarrow> nat \<Rightarrow> nat \<Rightarrow> int \<Rightarrow> nat \<Rightarrow> nat \<Rightarrow> ('a::{plus,zero}) memory \<Rightarrow> error + 'a memory" where
  "add_kernel x_ptr y_ptr output_ptr n_elements BLOCK_SIZE pid mem =
     (let offsets = kernel_offsets BLOCK_SIZE pid;
          msk = kernel_mask n_elements offsets
      in case tl_load mem (ptr_add x_ptr offsets) msk 0 of
           Inl e \<Rightarrow> Inl e
         | Inr x \<Rightarrow>
            (case tl_load mem (ptr_add y_ptr offsets) msk 0 of
               Inl e \<Rightarrow> Inl e
             | Inr y \<Rightarrow>
                (let output = map2 (+) x y
                 in tl_store mem (ptr_add output_ptr offsets) output msk)))"

text \<open>The kernel gets the tensors as the addresses of their first elements; it does not
  see their strides.\<close>

definition triton_add ::
  "(nat \<Rightarrow> 'a) \<Rightarrow> tensor \<Rightarrow> tensor \<Rightarrow> ('a::{plus,zero}) memory \<Rightarrow> error + ('a memory \<times> tensor)" where
  "triton_add junk x y mem =
     (if shape x \<noteq> shape y then Inl ShapeAssertion
      else if \<not> (is_cuda x \<and> is_cuda y) then Inl DeviceAssertion
      else if dtype x \<noteq> dtype y then Inl DtypeAssertion
      else
        (let (mem1, output) = empty_like junk x mem;
             n_elements = numel output;
             BLOCK_SIZE = 1024;
             grid = cdiv n_elements BLOCK_SIZE;
             mem2 = launch_async (add_kernel (data_ptr x) (data_ptr y) (data_ptr output)
                                    (int n_elements) 1024) [0..<grid] mem1
         in Inr (mem2, output)))"

section \<open>pgl/test.py: the standalone kernel\<close>



section \<open>The host library's addition\<close>

text \<open>
  \<open>torch.add\<close> is not code of the repository. Its model follows the library's rules:
  the operands must be on one device, except that a CPU tensor of no dimension joins any
  device; the shapes are broadcast, aligned at the last dimension, where two sizes agree
  when they are equal or one of them is 1; unequal dtypes are promoted, never refused. The
  operands are read through their strides, element by element, and the result is a new
  contiguous tensor. The promotion table and the conversion of a value between dtypes are
  parameters of the model (\<open>result_type\<close>, \<open>convert\<close>), as are the content of fresh memory
  (\<open>uninit\<close>) and whether an accelerator is present (\<open>cuda_is_available\<close>).
\<close>

record 'a runtime =
  uninit :: "nat \<Rightarrow> 'a"
  result_type :: "tensor \<Rightarrow> tensor \<Rightarrow> dtype"
  convert :: "dtype \<Rightarrow> dtype \<Rightarrow> 'a \<Rightarrow> 'a"
  cuda_is_available :: bool

fun broadcast_rev :: "nat list \<Rightarrow> nat list \<Rightarrow> nat list option" where
  "broadcast_rev [] bs = Some bs"
| "broadcast_rev as [] = Some as"
| "broadcast_rev (a # as) (b # bs) =
     (if a = b \<or> a = 1 \<or> b = 1
      then (case broadcast_rev as bs of
              None \<Rightarrow> None
            | Some cs \<Rightarrow> Some ((if a = 1 then b else a) # cs))
      else None)"

definition broadcast_shapes :: "nat list \<Rightarrow> nat list \<Rightarrow> nat list option" where
  "broadcast_shapes a b = map_option rev (broadcast_rev (rev a) (rev b))"

text \<open>The coordinates of the linear index \<open>i\<close> in a row-major tensor, last dimension first.\<close>

fun unravel_rev :: "nat \<Rightarrow> nat list \<Rightarrow> nat list" where
  "unravel_rev i [] = []"
| "unravel_rev i (d # ds) = i mod d # unravel_rev (i div d) ds"

text \<open>The linear index, in an operand of the given sizes, of the element that the result's
  coordinates read: a dimension of size 1 is read at 0, a missing dimension is not there.\<close>

fun source_index :: "nat list \<Rightarrow> nat list \<Rightarrow> nat" where
  "source_index (k # ks) (d # ds) = (if d = 1 then 0 else k) + d * source_index ks ds"
| "source_index ks ds = 0"

definition bcast_index :: "nat list \<Rightarrow> nat list \<Rightarrow> nat \<Rightarrow> nat" where
  "bcast_index out_shape in_shape i = source_index (unravel_rev i (rev out_shape)) (rev in_shape)"

definition common_device :: "tensor \<Rightarrow> tensor \<Rightarrow> error + device" where
  "common_device x y =
     (if device x = device y then Inr (device x)
      else if device x = CPU \<and> shape x = [] then Inr (device y)
      else if device y = CPU \<and> shape y = [] then Inr (device x)
      else Inl DeviceMismatch)"

definition cast :: "'a runtime \<Rightarrow> dtype \<Rightarrow> dtype \<Rightarrow> 'a \<Rightarrow> 'a" where
  "cast rt d d' v = (if d = d' then v else convert rt d d' v)"

definition torch_add ::
  "'a runtime \<Rightarrow> tensor \<Rightarrow> tensor \<Rightarrow> ('a::plus) memory \<Rightarrow> error + ('a memory \<times> tensor)" where
  "torch_add rt x y mem =
     (case common_device x y of
        Inl e \<Rightarrow> Inl e
      | Inr dev \<Rightarrow>
         (case broadcast_shapes (shape x) (shape y) of
            None \<Rightarrow> Inl BroadcastError
          | Some s \<Rightarrow>
             (let dt = (if dtype x = dtype y then dtype x else result_type rt x y);
                  xs = map (cast rt (dtype x) dt) (elems mem x);
                  ys = map (cast rt (dtype y) dt) (elems mem y);
                  out = map (\<lambda>i. xs ! bcast_index s (shape x) i + ys ! bcast_index s (shape y) i)
                          [0..<prod_list s]
              in Inr (mem @ out,
                      \<lparr>shape = s, stride = contiguous_strides s, dtype = dt, device = dev,
                       data_ptr = length mem\<rparr>))))"

section \<open>pgl/ops/add.py: the fallback executor and the dispatcher\<close>

definition pytorch_add ::
  "'a runtime \<Rightarrow> tensor \<Rightarrow> tensor \<Rightarrow> ('a::plus) memory \<Rightarrow> error + ('a memory \<times> tensor)" where
  "pytorch_add rt x y mem = torch_add rt x y mem"

text \<open>What a call of the dispatcher does besides returning: the executors it calls, in
  order, and the warning it logs with the exception it caught.\<close>

datatype event = CallTriton | CallPytorch | LogWarning error

definition add ::
  "'a runtime \<Rightarrow> tensor \<Rightarrow> tensor \<Rightarrow> bool \<Rightarrow> ('a::{plus,zero}) memory
     \<Rightarrow> event list \<times> (error + ('a memory \<times> tensor))" where
  "add rt x y use_triton mem =
     (if use_triton \<and> is_cuda x \<and> is_cuda y \<and> cuda_is_available rt
      then (case triton_add (uninit rt) x y mem of
              Inr r \<Rightarrow> ([CallTriton], Inr r)
            | Inl e \<Rightarrow> ([CallTriton, LogWarning e, CallPytorch], pytorch_add rt x y mem))
      else ([CallPytorch], pytorch_add rt x y mem))"

section \<open>pgl/ops/export.py: the exporter\<close>

text \<open>
  Tracing, scripting, saving, loading, running a module and comparing two results belong to
  the host library. Each is an outcome given to the model: a value, or the exception it
  raises. The comparison \<open>torch.allclose(..., atol=1e-6)\<close> is one of them; its arithmetic is
  not modelled. The log is the list of records the function writes, in order.
\<close>

record ('e, 'm, 't) export_env =
  jit_trace :: "'e + 'm"
  jit_script :: "'e + 'm"
  model_save :: "'m \<Rightarrow> string \<Rightarrow> 'e option"
  jit_load :: "string \<Rightarrow> 'e + 'm"
  run_model :: "'e + 't"
  run_loaded :: "'m \<Rightarrow> 'e + 't"
  allclose :: "'t \<Rightarrow> 't \<Rightarrow> 'e + bool"

datatype 'e export_log =
    InfoStart
  | InfoTraceMode
  | InfoScriptMode
  | InfoSave string
  | InfoVerify
  | InfoVerifyOk
  | WarnVerifyMismatch
  | InfoDone
  | ErrorExportFailed 'e

text \<open>The handler \<open>except Exception as e\<close>: log the error, raise it again.\<close>

definition export_failed :: "'e export_log list \<Rightarrow> 'e \<Rightarrow> 'e export_log list \<times> ('e + 'm)" where
  "export_failed records e = (records @ [ErrorExportFailed e], Inl e)"

definition export_torchscript_model ::
  "('e, 'm, 't) export_env \<Rightarrow> string \<Rightarrow> bool \<Rightarrow> 'e export_log list \<times> ('e + 'm)" where
  "export_torchscript_model env output_path use_trace =
     (let log1 = [InfoStart, if use_trace then InfoTraceMode else InfoScriptMode]
      in case (if use_trace then jit_trace env else jit_script env) of
           Inl e \<Rightarrow> export_failed log1 e
         | Inr scripted_model \<Rightarrow>
            (let log2 = log1 @ [InfoSave output_path]
             in case model_save env scripted_model output_path of
                  Some e \<Rightarrow> export_failed log2 e
                | None \<Rightarrow>
                   (let log3 = log2 @ [InfoVerify]
                    in case jit_load env output_path of
                         Inl e \<Rightarrow> export_failed log3 e
                       | Inr loaded_model \<Rightarrow>
                          (case run_model env of
                             Inl e \<Rightarrow> export_failed log3 e
                           | Inr original_result \<Rightarrow>
                              (case run_loaded env loaded_model of
                                 Inl e \<Rightarrow> export_failed log3 e
                               | Inr loaded_result \<Rightarrow>
                                  (case allclose env original_result loaded_result of
                                     Inl e \<Rightarrow> export_failed log3 e
                                   | Inr ok \<Rightarrow>
                                      (log3 @ [if ok then InfoVerifyOk else WarnVerifyMismatch,
                                               InfoDone],
                                       Inr scripted_model)))))))"

section \<open>pgl/ops/test.py: benchmark and validation\<close>

text \<open>
  Wall-clock time is not modelled: for a size and a number of runs, \<open>timings\<close> gives what
  the warm-up and the timed loops of one iteration produce, the two mean latencies in
  seconds and the outcome of the accuracy check (false when the check raised), or the
  exception that escapes them. \<open>check_case\<close> gives, for a size and an input pattern, the
  two comparisons of one validation case, or the exception its \<open>try\<close> block catches.
\<close>

record 'e test_env =
  torch_cuda_is_available :: bool
  timings :: "nat \<Rightarrow> nat \<Rightarrow> 'e + (real \<times> real \<times> bool)"
  check_case :: "nat \<Rightarrow> nat \<Rightarrow> 'e + (bool \<times> bool)"

record bench_results =
  sizes :: "nat list"
  triton_times :: "real list"
  pytorch_times :: "real list"
  speedup_ratios :: "real list"
  accuracy_checks :: "bool list"

fun bench_loop :: "'e test_env \<Rightarrow> nat \<Rightarrow> nat list \<Rightarrow> bench_results \<Rightarrow> 'e + bench_results" where
  "bench_loop env num_runs [] results = Inr results"
| "bench_loop env num_runs (sz # rest) results =
     (case timings env sz num_runs of
        Inl e \<Rightarrow> Inl e
      | Inr (mean_triton, mean_pytorch, accuracy_check) \<Rightarrow>
         (let avg_triton_time = mean_triton * 1000;
              avg_pytorch_time = mean_pytorch * 1000;
              speedup = (if avg_triton_time > 0 then avg_pytorch_time / avg_triton_time else 0)
          in bench_loop env num_runs rest
               (results\<lparr>triton_times := triton_times results @ [avg_triton_time],
                        pytorch_times := pytorch_times results @ [avg_pytorch_time],
                        speedup_ratios := speedup_ratios results @ [speedup],
                        accuracy_checks := accuracy_checks results @ [accuracy_check]\<rparr>)))"

definition benchmark_add_operations ::
  "'e test_env \<Rightarrow> nat list option \<Rightarrow> nat \<Rightarrow> 'e + bench_results" where
  "benchmark_add_operations env sizes_arg num_runs =
     (let sizes0 = (case sizes_arg of None \<Rightarrow> [1000, 10000, 100000, 1000000] | Some s \<Rightarrow> s);
          results = \<lparr>sizes = sizes0, triton_times = [], pytorch_times = [],
                     speedup_ratios = [], accuracy_checks = []\<rparr>
      in if \<not> torch_cuda_is_available env then Inr results
         else bench_loop env num_runs sizes0 results)"

definition validate_case :: "'e test_env \<Rightarrow> nat \<Rightarrow> bool \<Rightarrow> nat \<Rightarrow> bool" where
  "validate_case env sz all_passed i =
     (case check_case env sz i of
        Inl e \<Rightarrow> False
      | Inr (triton_match, expected_match) \<Rightarrow>
         (if \<not> (triton_match \<and> expected_match) then False else all_passed))"

definition validate_correctness :: "'e test_env \<Rightarrow> nat list option \<Rightarrow> bool" where
  "validate_correctness env test_sizes_arg =
     (let test_sizes = (case test_sizes_arg of None \<Rightarrow> [100, 1000, 10000] | Some s \<Rightarrow> s)
      in if \<not> torch_cuda_is_available env then False
         else foldl (\<lambda>all_passed sz. foldl (validate_case env sz) all_passed [0..<4])
                True test_sizes)"

section \<open>Example data\<close>

text \<open>Three tensors in a memory of seven cells: \<open>ex_x\<close> and \<open>ex_y\<close> of three elements,
  \<open>ex_row\<close> of one.\<close>

definition ex_x :: tensor where
  "ex_x = \<lparr>shape = [3], stride = [1], dtype = Float32, device = CUDA, data_ptr = 0\<rparr>"

definition ex_y :: tensor where
  "ex_y = \<lparr>shape = [3], stride = [1], dtype = Float32, device = CUDA, data_ptr = 3\<rparr>"

definition ex_row :: tensor where
  "ex_row = \<lparr>shape = [1], stride = [1], dtype = Float32, device = CUDA, data_ptr = 6\<rparr>"

definition ex_mem :: "int memory" where
  "ex_mem = [1, 2, 3, 10, 20, 30, 100]"

definition ex_rt :: "int runtime" where
  "ex_rt = \<lparr>uninit = (\<lambda>_. 7), result_type = (\<lambda>_ _. Float64), convert = (\<lambda>_ _ v. v),
            cuda_is_available = True\<rparr>"







text \<open>
  Two contiguous tensors of \<open>2 ^ 31 + 1\<close> elements, all zero, allocated one after the other
  behind an earlier allocation of \<open>2 ^ 31\<close> cells that hold 5.
\<close>

definition pad_len :: nat where
  "pad_len = 2147483648"

definition huge :: nat where
  "huge = 2147483649"

definition huge_x :: tensor where
  "huge_x = \<lparr>shape = [huge], stride = [1], dtype = Float32, device = CUDA, data_ptr = pad_len\<rparr>"

definition huge_y :: tensor where
  "huge_y = \<lparr>shape = [huge], stride = [1], dtype = Float32, device = CUDA,
             data_ptr = pad_len + huge\<rparr>"

definition huge_mem :: "int memory" where
  "huge_mem = replicate pad_len 5 @ replicate huge 0 @ replicate huge 0"

definition ex_env :: "(nat, string, int list) export_env" where
  "ex_env = \<lparr>jit_trace = Inr ''traced'', jit_script = Inl 1,
     model_save = (\<lambda>m p. if p = ''/readonly/m.pt'' then Some 2 else None),
     jit_load = (\<lambda>p. Inr ''loaded''), run_model = Inr [1, 2], run_loaded = (\<lambda>m. Inr [1, 3]),
     allclose = (\<lambda>a b. Inr (a = b))\<rparr>"

definition ex_test_env :: "nat test_env" where
  "ex_test_env = \<lparr>torch_cuda_is_available = False, timings = (\<lambda>s n. Inl 0),
     check_case = (\<lambda>s i. Inr (True, True))\<rparr>"

section \<open>What one program instance and a whole grid compute\<close>

text \<open>Memory after the program instances whose offsets run from \<open>lo\<close> up to \<open>hi\<close>: the
  cell at \<open>op + d\<close>, for every offset \<open>d\<close> in that range and below \<open>n\<close>, holds the sum of the
  cells at \<open>xp + d\<close> and \<open>yp + d\<close>; every other cell holds what it held.\<close>

definition block_result ::
  "('a::plus) memory \<Rightarrow> nat \<Rightarrow> nat \<Rightarrow> nat \<Rightarrow> int \<Rightarrow> int \<Rightarrow> int \<Rightarrow> 'a memory" where
  "block_result mem xp yp op n lo hi =
     map (\<lambda>a. let d = int a - int op
              in if lo \<le> d \<and> d < hi \<and> d < n
                 then mem ! nat (int xp + d) + mem ! nat (int yp + d)
                 else mem ! a) [0..<length mem]"

section \<open>Properties\<close>

lemma wrap32_id: "- (2 ^ 31) \<le> i \<Longrightarrow> i < 2 ^ 31 \<Longrightarrow> wrap32 i = i"
  by (simp add: wrap32_def)

lemma wrap32_range: "- (2 ^ 31) \<le> wrap32 i" "wrap32 i < 2 ^ 31"
  using pos_mod_bound[of "2 ^ 32" "i + 2 ^ 31"] pos_mod_sign[of "2 ^ 32" "i + 2 ^ 31"]
  by (simp_all add: wrap32_def)

lemma zip_map_same: "zip (map f xs) (map g xs) = map (\<lambda>a. (f a, g a)) xs"
  by (induction xs) auto

lemma kernel_offsets_block:
  assumes "wrap32 (int pid * int B) = s" "s + int B \<le> 2 ^ 31"
  shows "kernel_offsets B pid = map (\<lambda>k. s + int k) [0..<B]"
proof -
  have lo: "- (2 ^ 31) \<le> s" using wrap32_range(1)[of "int pid * int B"] assms(1) by simp
  have "wrap32 (s + int k) = s + int k" if "k < B" for k
  proof -
    have "s + int k < 2 ^ 31" using assms(2) that by linarith
    moreover have "- (2 ^ 31) \<le> s + int k" using lo by linarith
    ultimately show ?thesis by (rule wrap32_id[rotated])
  qed
  then show ?thesis
    unfolding kernel_offsets_def arange_def Let_def assms(1) by (simp add: o_def)
qed

lemma store_lanes_append: "store_lanes mem (ls @ ls') = store_lanes (store_lanes mem ls) ls'"
  by (induction mem ls rule: store_lanes.induct) auto

lemma length_store_lanes [simp]: "length (store_lanes mem ls) = length mem"
  by (induction mem ls rule: store_lanes.induct) auto

lemma store_lanes_block:
  assumes "\<forall>k<B. g k \<longrightarrow> 0 \<le> c + int k"
  shows "store_lanes mem (map (\<lambda>k. (c + int k, f k, g k)) [0..<B]) =
     map (\<lambda>a. if c \<le> int a \<and> int a < c + int B \<and> g (nat (int a - c))
              then f (nat (int a - c)) else mem ! a) [0..<length mem]"
  using assms
proof (induction B)
  case 0
  then show ?case by (auto intro!: nth_equalityI)
next
  case (Suc B)
  have ih: "store_lanes mem (map (\<lambda>k. (c + int k, f k, g k)) [0..<B]) =
     map (\<lambda>a. if c \<le> int a \<and> int a < c + int B \<and> g (nat (int a - c))
              then f (nat (int a - c)) else mem ! a) [0..<length mem]"
    using Suc.prems by (intro Suc.IH) auto
  show ?case
  proof (cases "g B")
    case False
    have "\<And>a. c \<le> int a \<Longrightarrow> int a < c + int (Suc B) \<Longrightarrow> g (nat (int a - c)) \<Longrightarrow> int a < c + int B"
    proof -
      fix a assume a: "c \<le> int a" "int a < c + int (Suc B)" "g (nat (int a - c))"
      have "nat (int a - c) \<noteq> B" using a(3) False by auto
      then have "int a - c \<noteq> int B" using a(1) by auto
      then show "int a < c + int B" using a(2) by simp
    qed
    then show ?thesis
      unfolding upt_Suc_append[OF le0] map_append store_lanes_append ih
      using False by (auto intro!: nth_equalityI)
  next
    case True
    then have nn: "0 \<le> c + int B" using Suc.prems by simp
    let ?m = "map (\<lambda>a. if c \<le> int a \<and> int a < c + int B \<and> g (nat (int a - c))
              then f (nat (int a - c)) else mem ! a) [0..<length mem]"
    have "?m[nat (c + int B) := f B] =
        map (\<lambda>a. if c \<le> int a \<and> int a < c + int (Suc B) \<and> g (nat (int a - c))
              then f (nat (int a - c)) else mem ! a) [0..<length mem]"
    proof (rule nth_equalityI)
      show "length (?m[nat (c + int B) := f B]) =
          length (map (\<lambda>a. if c \<le> int a \<and> int a < c + int (Suc B) \<and> g (nat (int a - c))
              then f (nat (int a - c)) else mem ! a) [0..<length mem])"
        by simp
    next
      fix i assume "i < length (?m[nat (c + int B) := f B])"
      then have i: "i < length mem" by simp
      show "?m[nat (c + int B) := f B] ! i =
          map (\<lambda>a. if c \<le> int a \<and> int a < c + int (Suc B) \<and> g (nat (int a - c))
              then f (nat (int a - c)) else mem ! a) [0..<length mem] ! i"
      proof (cases "int i = c + int B")
        case eq: True
        then have "i = nat (c + int B)" by simp
        moreover have "nat (int i - c) = B" using eq by simp
        ultimately show ?thesis using i True eq by (simp add: nth_list_update)
      next
        case ne: False
        then have "i \<noteq> nat (c + int B)" using nn by auto
        moreover have "(int i < c + int (Suc B)) = (int i < c + int B)" using ne by auto
        ultimately show ?thesis using i by (simp add: nth_list_update del: of_nat_Suc)
      qed
    qed
    then show ?thesis
      unfolding upt_Suc_append[OF le0] map_append store_lanes_append ih
      using True by simp
  qed
qed

lemma length_block_result [simp]: "length (block_result mem xp yp op n lo hi) = length mem"
  by (simp add: block_result_def)

lemma block_result_nth:
  "a < length mem \<Longrightarrow>
   block_result mem xp yp op n lo hi ! a =
     (if lo \<le> int a - int op \<and> int a - int op < hi \<and> int a - int op < n
      then mem ! nat (int xp + (int a - int op)) + mem ! nat (int yp + (int a - int op))
      else mem ! a)"
  by (simp add: block_result_def Let_def)

lemma add_kernel_block:
  fixes mem :: "'a::{plus,zero} memory"
  assumes s: "wrap32 (int pid * int B) = s" "s + int B \<le> 2 ^ 31"
    and m: "\<forall>k<B. s + int k < n \<longrightarrow>
              in_range mem (int xp + (s + int k)) \<and> in_range mem (int yp + (s + int k)) \<and>
              in_range mem (int op + (s + int k))"
  shows "add_kernel xp yp op n B pid mem = Inr (block_result mem xp yp op n s (s + int B))"
proof -
  let ?X = "\<lambda>k. if s + int k < n then mem ! nat (int xp + (s + int k)) else 0"
  let ?Y = "\<lambda>k. if s + int k < n then mem ! nat (int yp + (s + int k)) else 0"
  let ?offs = "map (\<lambda>k. s + int k) [0..<B]"
  have msk: "kernel_mask n ?offs = map (\<lambda>k. s + int k < n) [0..<B]"
    by (simp add: kernel_mask_def o_def)
  have okx: "lanes_ok mem (ptr_add xp ?offs) (kernel_mask n ?offs)"
    and oky: "lanes_ok mem (ptr_add yp ?offs) (kernel_mask n ?offs)"
    and oko: "lanes_ok mem (ptr_add op ?offs) (kernel_mask n ?offs)"
    using m by (simp_all add: lanes_ok_def msk ptr_add_def zip_map_same list_all_iff o_def)
  have lx: "tl_load mem (ptr_add xp ?offs) (kernel_mask n ?offs) 0 = Inr (map ?X [0..<B])"
    unfolding tl_load_def using okx by (simp add: msk ptr_add_def zip_map_same o_def)
  have ly: "tl_load mem (ptr_add yp ?offs) (kernel_mask n ?offs) 0 = Inr (map ?Y [0..<B])"
    unfolding tl_load_def using oky by (simp add: msk ptr_add_def zip_map_same o_def)
  have z: "zip (ptr_add op ?offs) (zip (map2 (+) (map ?X [0..<B]) (map ?Y [0..<B])) (kernel_mask n ?offs)) =
      map (\<lambda>k. ((int op + s) + int k, ?X k + ?Y k, s + int k < n)) [0..<B]"
    by (simp add: msk ptr_add_def zip_map_same o_def add.assoc)
  have nn: "\<forall>k<B. s + int k < n \<longrightarrow> 0 \<le> (int op + s) + int k"
    using m by (auto simp: in_range_def add.assoc)
  have st: "tl_store mem (ptr_add op ?offs) (map2 (+) (map ?X [0..<B]) (map ?Y [0..<B])) (kernel_mask n ?offs) =
      Inr (block_result mem xp yp op n s (s + int B))"
    unfolding tl_store_def z store_lanes_block[OF nn] block_result_def Let_def
    using oko by (auto simp: algebra_simps)
  show ?thesis
    unfolding add_kernel_def Let_def kernel_offsets_block[OF s]
    by (simp add: lx ly st)
qed


lemma launch_append:
  "launch k (ps @ qs) mem = (case launch k ps mem of Inl e \<Rightarrow> Inl e | Inr mem' \<Rightarrow> launch k qs mem')"
  by (induction ps arbitrary: mem) (auto split: sum.splits)

lemma launch_async_eq: "launch k ps mem = Inr mem' \<Longrightarrow> launch_async k ps mem = mem'"
  by (induction ps arbitrary: mem) (auto split: sum.splits)

lemma wrap32_nat: "pid * B + B \<le> 2 ^ 31 \<Longrightarrow> wrap32 (int pid * int B) = int (pid * B)"
proof -
  assume a: "pid * B + B \<le> 2 ^ 31"
  have "int (pid * B + B) \<le> int (2 ^ 31)" using a by (simp only: of_nat_le_iff)
  then have b: "int pid * int B + int B \<le> 2 ^ 31" by simp
  show ?thesis
  proof (cases "B = 0")
    case True
    then show ?thesis by (simp add: wrap32_def)
  next
    case False
    have "0 \<le> int pid * int B" by simp
    then have "wrap32 (int pid * int B) = int pid * int B"
      using b False by (intro wrap32_id) linarith+
    then show ?thesis by simp
  qed
qed

lemma block_result_outside:
  "q < length mem \<Longrightarrow> int q - int op < lo \<or> hi \<le> int q - int op \<or> n \<le> int q - int op \<Longrightarrow>
   block_result mem xp yp op n lo hi ! q = mem ! q"
  by (auto simp: block_result_nth)

lemma block_result_empty: "block_result mem xp yp op n lo lo = mem"
  by (auto simp: block_result_nth intro!: nth_equalityI)

lemma launch_add_kernel:
  fixes mem :: "'a::{plus,zero} memory"
  assumes "xp + n \<le> length mem" "yp + n \<le> length mem" "op + n \<le> length mem"
    and "xp + n \<le> op \<or> op + n \<le> xp" "yp + n \<le> op \<or> op + n \<le> yp"
    and "p * B \<le> 2 ^ 31"
  shows "launch (add_kernel xp yp op (int n) B) [0..<p] mem =
     Inr (block_result mem xp yp op (int n) 0 (int (p * B)))"
  using assms(6)
proof (induction p)
  case 0
  show ?case by (simp add: block_result_empty)
next
  case (Suc p)
  let ?s = "int (p * B)"
  let ?M = "block_result mem xp yp op (int n) 0 ?s"
  from Suc.prems have le: "p * B \<le> 2 ^ 31" and le': "p * B + B \<le> 2 ^ 31" by (simp_all add: add.commute)
  have "int (p * B + B) \<le> int (2 ^ 31)" using le' by (simp only: of_nat_le_iff)
  then have sB: "?s + int B \<le> 2 ^ 31" by simp
  have w: "wrap32 (int p * int B) = ?s" by (rule wrap32_nat[OF le'])
  have m: "\<forall>k<B. ?s + int k < int n \<longrightarrow>
              in_range ?M (int xp + (?s + int k)) \<and> in_range ?M (int yp + (?s + int k)) \<and>
              in_range ?M (int op + (?s + int k))"
    using assms(1-3) by (auto simp: in_range_def)
  have step: "add_kernel xp yp op (int n) B p ?M = Inr (block_result ?M xp yp op (int n) ?s (?s + int B))"
    by (rule add_kernel_block[OF w sB m])
  have comb: "block_result ?M xp yp op (int n) ?s (?s + int B) =
      block_result mem xp yp op (int n) 0 (int (Suc p * B))"
  proof (rule nth_equalityI)
    show "length (block_result ?M xp yp op (int n) ?s (?s + int B)) =
        length (block_result mem xp yp op (int n) 0 (int (Suc p * B)))" by simp
  next
    fix a assume "a < length (block_result ?M xp yp op (int n) ?s (?s + int B))"
    then have a: "a < length mem" by simp
    define d where "d = int a - int op"
    have e: "int (Suc p * B) = ?s + int B" by simp
    show "block_result ?M xp yp op (int n) ?s (?s + int B) ! a =
        block_result mem xp yp op (int n) 0 (int (Suc p * B)) ! a"
    proof (cases "?s \<le> d \<and> d < ?s + int B \<and> d < int n")
      case True
      then have d0: "0 \<le> d" by linarith
      have qx: "nat (int xp + d) < length mem" and qy: "nat (int yp + d) < length mem"
        using True d0 assms(1,2) by linarith+
      have ox: "int (nat (int xp + d)) - int op < 0 \<or> int n \<le> int (nat (int xp + d)) - int op"
        using assms(4) True d0 by linarith
      have oy: "int (nat (int yp + d)) - int op < 0 \<or> int n \<le> int (nat (int yp + d)) - int op"
        using assms(5) True d0 by linarith
      have rx: "?M ! nat (int xp + d) = mem ! nat (int xp + d)"
        using ox by (intro block_result_outside[OF qx]) auto
      have ry: "?M ! nat (int yp + d) = mem ! nat (int yp + d)"
        using oy by (intro block_result_outside[OF qy]) auto
      have l: "block_result ?M xp yp op (int n) ?s (?s + int B) ! a =
          ?M ! nat (int xp + d) + ?M ! nat (int yp + d)"
        using True a unfolding d_def by (subst block_result_nth) simp_all
      have r: "block_result mem xp yp op (int n) 0 (int (Suc p * B)) ! a =
          mem ! nat (int xp + d) + mem ! nat (int yp + d)"
        using True d0 a unfolding d_def e by (subst block_result_nth) simp_all
      show ?thesis unfolding l r rx ry ..
    next
      case False
      have l: "block_result ?M xp yp op (int n) ?s (?s + int B) ! a = ?M ! a"
        using False a unfolding d_def by (intro block_result_outside) auto
      have "(0 \<le> d \<and> d < ?s + int B \<and> d < int n) = (0 \<le> d \<and> d < ?s \<and> d < int n)"
        using False by auto
      then have r: "block_result mem xp yp op (int n) 0 (int (Suc p * B)) ! a = ?M ! a"
        using a unfolding d_def e by (simp add: block_result_nth)
      show ?thesis unfolding l r ..
    qed
  qed
  show ?case
    unfolding upt_Suc_append[OF le0] launch_append Suc.IH[OF le]
    by (simp add: step comb del: of_nat_mult of_nat_add)
qed

lemma store_lanes_below:
  "\<forall>l\<in>set ls. int op \<le> fst l \<Longrightarrow> a < op \<Longrightarrow> store_lanes mem ls ! a = mem ! a"
proof (induction mem ls rule: store_lanes.induct)
  case (1 mem)
  then show ?case by simp
next
  case (2 mem b v m ls)
  have "nat b \<noteq> a" using 2(2,3) by auto
  then show ?case using 2 by simp
qed

lemma add_kernel_frame:
  fixes mem :: "'a::{plus,zero} memory"
  assumes "pid * B + B \<le> 2 ^ 31" "add_kernel xp yp op n B pid mem = Inr mem'"
  shows "length mem' = length mem \<and> (\<forall>a<op. mem' ! a = mem ! a)"
proof -
  let ?s = "int (pid * B)"
  have "int (pid * B + B) \<le> int (2 ^ 31)" using assms(1) by (simp only: of_nat_le_iff)
  then have sB: "?s + int B \<le> 2 ^ 31" by simp
  have offs: "kernel_offsets B pid = map (\<lambda>k. ?s + int k) [0..<B]"
    by (rule kernel_offsets_block[OF wrap32_nat[OF assms(1)] sB])
  obtain vals where st: "mem' = store_lanes mem (zip (ptr_add op (map (\<lambda>k. ?s + int k) [0..<B]))
        (zip vals (kernel_mask n (map (\<lambda>k. ?s + int k) [0..<B]))))"
    using assms(2) unfolding add_kernel_def Let_def offs tl_store_def
    by (auto split: sum.splits if_splits)
  have ge: "\<forall>l\<in>set (zip (ptr_add op (map (\<lambda>k. ?s + int k) [0..<B]))
        (zip vals (kernel_mask n (map (\<lambda>k. ?s + int k) [0..<B])))). int op \<le> fst l"
  proof
    fix l assume "l \<in> set (zip (ptr_add op (map (\<lambda>k. ?s + int k) [0..<B]))
        (zip vals (kernel_mask n (map (\<lambda>k. ?s + int k) [0..<B]))))"
    then have "fst l \<in> set (ptr_add op (map (\<lambda>k. ?s + int k) [0..<B]))"
      by (metis prod.collapse set_zip_leftD)
    then show "int op \<le> fst l" by (auto simp: ptr_add_def)
  qed
  show ?thesis unfolding st using store_lanes_below[OF ge] by simp
qed

lemma launch_async_frame:
  fixes mem :: "'a::{plus,zero} memory"
  assumes "\<forall>pid\<in>set ps. pid * B + B \<le> 2 ^ 31"
  shows "length (launch_async (add_kernel xp yp op n B) ps mem) = length mem \<and>
     (\<forall>a<op. launch_async (add_kernel xp yp op n B) ps mem ! a = mem ! a)"
  using assms
proof (induction ps arbitrary: mem)
  case Nil
  then show ?case by simp
next
  case (Cons pid ps)
  show ?case
  proof (cases "add_kernel xp yp op n B pid mem")
    case (Inl e)
    then show ?thesis by simp
  next
    case (Inr mem')
    have f: "length mem' = length mem \<and> (\<forall>a<op. mem' ! a = mem ! a)"
      by (rule add_kernel_frame[OF _ Inr]) (use Cons.prems in simp)
    have "length (launch_async (add_kernel xp yp op n B) ps mem') = length mem' \<and>
     (\<forall>a<op. launch_async (add_kernel xp yp op n B) ps mem' ! a = mem' ! a)"
      by (rule Cons.IH) (use Cons.prems in simp)
    then show ?thesis using f Inr by simp
  qed
qed

lemma cdiv_bounds:
  assumes "0 < B"
  shows "n \<le> cdiv n B * B" and "B dvd m \<Longrightarrow> n \<le> m \<Longrightarrow> cdiv n B * B \<le> m"
proof -
  have "n + B - 1 < ((n + B - 1) div B + 1) * B"
    using assms by (metis Suc_eq_plus1 dividend_less_div_times mult.commute mult_Suc)
  then show "n \<le> cdiv n B * B" unfolding cdiv_def using assms by simp
next
  assume d: "B dvd m" and le: "n \<le> m"
  then obtain q where q: "m = q * B" by (metis dvd_def mult.commute)
  have "(n + B - 1) div B \<le> q"
  proof -
    have "n + B - 1 < q * B + B" using le q assms by simp
    then have "n + B - 1 < (Suc q) * B" by simp
    then have "(n + B - 1) div B < Suc q" using assms
      by (simp add: less_mult_imp_div_less)
    then show ?thesis by simp
  qed
  then show "cdiv n B * B \<le> m" unfolding cdiv_def q by simp
qed




lemma length_strided_offsets: "length (strided_offsets sh st) = prod_list sh"
proof (induction sh st rule: strided_offsets.induct)
  case (1 ss)
  then show ?case by simp
next
  case (2 d ds)
  have "length (strided_offsets ds []) = prod_list ds" if "d \<noteq> 0"
    using 2[of 0] that by simp
  then show ?case by (cases "d = 0") (simp_all add: length_concat o_def sum_list_triv)
next
  case (3 d ds s ss)
  have "length (strided_offsets ds ss) = prod_list ds" if "d \<noteq> 0"
    using 3[of 0] that by simp
  then show ?case by (cases "d = 0") (simp_all add: length_concat o_def sum_list_triv)
qed

lemma concat_upt_blocks:
  "concat (map (\<lambda>i. map (\<lambda>off. i * P + off) [0..<P]) [0..<d]) = [0..<d * P]"
proof (induction d)
  case 0
  then show ?case by simp
next
  case (Suc d)
  have "map (\<lambda>off. d * P + off) [0..<P] = [d * P..<d * P + P]"
    using map_add_upt[of "d * P" P] by (simp add: add.commute)
  moreover have "[0..<d * P + P] = [0..<d * P] @ [d * P..<d * P + P]"
    by (rule upt_add_eq_append) simp
  ultimately show ?case using Suc by (simp add: add.commute)
qed

lemma strided_offsets_contiguous: "strided_offsets sh (contiguous_strides sh) = [0..<prod_list sh]"
  by (induction sh) (simp_all add: concat_upt_blocks)


lemma empty_like_simps [simp]:
  "fst (empty_like junk x mem) = mem @ map junk [0..<numel x]"
  "shape (snd (empty_like junk x mem)) = shape x"
  "dtype (snd (empty_like junk x mem)) = dtype x"
  "device (snd (empty_like junk x mem)) = device x"
  "data_ptr (snd (empty_like junk x mem)) = length mem"
  "numel (snd (empty_like junk x mem)) = numel x"
  by (simp_all add: empty_like_def numel_def)

lemma triton_add_launch:
  fixes mem :: "'a::{plus,zero} memory"
  assumes "shape x = shape y" "dtype x = dtype y" "is_cuda x" "is_cuda y"
  shows "triton_add junk x y mem =
     Inr (launch_async (add_kernel (data_ptr x) (data_ptr y) (length mem) (int (numel x)) 1024)
            [0..<cdiv (numel x) 1024] (mem @ map junk [0..<numel x]),
          snd (empty_like junk x mem))"
  using assms by (simp add: triton_add_def Let_def split_beta)





lemma elems_contiguous:
  "is_contiguous t \<Longrightarrow> elems mem t = map (\<lambda>i. mem ! (data_ptr t + i)) [0..<numel t]"
  by (simp add: elems_def is_contiguous_def)

lemma empty_like_contiguous:
  "is_contiguous x \<Longrightarrow> is_contiguous (snd (empty_like junk x mem))"
  by (simp add: is_contiguous_def empty_like_def numel_def strided_offsets_contiguous)



lemma cdiv_succ: "0 < B \<Longrightarrow> cdiv (p * B + 1) B = Suc p"
  by (simp add: cdiv_def)

lemma launch_wrapped:
  fixes mem :: "'a::{plus,zero} memory"
  assumes "p * B = P" "P = 2 ^ 31" "n = P + 1"
    and "P \<le> xp" "P \<le> yp" "xp + n \<le> op" "yp + n \<le> op" "op + n \<le> length mem"
  shows "launch (add_kernel xp yp op (int n) B) [0..<cdiv n B] mem =
     Inr (block_result (block_result mem xp yp op (int n) 0 (int P)) xp yp op (int n)
            (- int P) (- int P + int B))"
proof -
  let ?M = "block_result mem xp yp op (int n) 0 (int P)"
  have B: "0 < B" using assms(1,2) by (cases B) auto
  have p: "0 < p" using assms(1,2) by (cases p) auto
  have BP: "B \<le> P" using p assms(1) by (cases p) auto
  have g: "cdiv n B = Suc p" using cdiv_succ[OF B, of p] assms(1,3) by simp
  have pre: "launch (add_kernel xp yp op (int n) B) [0..<p] mem = Inr ?M"
    using launch_add_kernel[of xp n mem yp op p B] assms by simp
  have "int (p * B) = int P" using assms(1) by (simp only:)
  then have "int p * int B = 2 ^ 31" using assms(2) by simp
  then have w: "wrap32 (int p * int B) = - int P" using assms(2) by (simp add: wrap32_def)
  have sB: "- int P + int B \<le> 2 ^ 31" using BP assms(2) by simp
  have m: "\<forall>k<B. - int P + int k < int n \<longrightarrow>
              in_range ?M (int xp + (- int P + int k)) \<and> in_range ?M (int yp + (- int P + int k)) \<and>
              in_range ?M (int op + (- int P + int k))"
    using assms(3-8) BP by (auto simp: in_range_def)
  have step: "add_kernel xp yp op (int n) B p ?M =
      Inr (block_result ?M xp yp op (int n) (- int P) (- int P + int B))"
    by (rule add_kernel_block[OF w sB m])
  show ?thesis
    unfolding g upt_Suc_append[OF le0] launch_append pre by (simp add: step)
qed

lemma wrapped_cells:
  fixes mem :: "'a::{plus,zero} memory"
  assumes "0 < B" "B \<le> P" "n = P + 1"
    and "P \<le> xp" "P \<le> yp" "xp + n \<le> op" "yp + n \<le> op" "op + n \<le> length mem"
  shows "block_result (block_result mem xp yp op (int n) 0 (int P)) xp yp op (int n)
            (- int P) (- int P + int B) ! (op - P) = mem ! (xp - P) + mem ! (yp - P)"
    and "block_result (block_result mem xp yp op (int n) 0 (int P)) xp yp op (int n)
            (- int P) (- int P + int B) ! (op + P) = mem ! (op + P)"
proof -
  let ?M = "block_result mem xp yp op (int n) 0 (int P)"
  have a: "op - P < length ?M" using assms by simp
  have d: "int (op - P) - int op = - int P" using assms by simp
  have qx: "nat (int xp + - int P) = xp - P" and qy: "nat (int yp + - int P) = yp - P"
    using assms(4,5) by simp_all
  have mx: "?M ! (xp - P) = mem ! (xp - P)"
    using assms by (intro block_result_outside) auto
  have my: "?M ! (yp - P) = mem ! (yp - P)"
    using assms by (intro block_result_outside) auto
  have "- int P \<le> 0" "0 < int n" using assms(3) by simp_all
  then have "- int P < int n" by linarith
  then have c: "- int P \<le> - int P \<and> - int P < - int P + int B \<and> - int P < int n"
    using assms(1) by simp
  show "block_result ?M xp yp op (int n) (- int P) (- int P + int B) ! (op - P) =
      mem ! (xp - P) + mem ! (yp - P)"
    unfolding block_result_nth[OF a] d using c by (simp only: if_True simp_thms qx qy mx my)
  have b: "op + P < length ?M" using assms by simp
  have "block_result ?M xp yp op (int n) (- int P) (- int P + int B) ! (op + P) = ?M ! (op + P)"
    using assms(2) by (intro block_result_outside[OF b]) auto
  moreover have "?M ! (op + P) = mem ! (op + P)"
    using b by (intro block_result_outside) auto
  ultimately show "block_result ?M xp yp op (int n) (- int P) (- int P + int B) ! (op + P) =
      mem ! (op + P)" by simp
qed

lemma huge_arith: "pad_len = 2 ^ 31" "huge = pad_len + 1" "0 < pad_len" "1 < huge"
  by (simp_all add: huge_def pad_len_def)

lemma grid_wrapped:
  fixes mem :: "'a::{plus,zero} memory"
  assumes "p * B = pad_len" "pad_len + huge \<le> xp" "xp + huge \<le> length mem"
  shows "\<exists>mem'. launch (add_kernel pad_len xp (length mem) (int huge) B) [0..<cdiv huge B]
            (mem @ map junk [0..<huge]) = Inr mem' \<and>
         length mem' = length mem + huge \<and>
         mem' ! (length mem - pad_len) = mem ! 0 + mem ! (xp - pad_len) \<and>
         mem' ! (length mem + pad_len) = junk pad_len"
proof -
  let ?mem1 = "mem @ map junk [0..<huge]"
  let ?F = "block_result (block_result ?mem1 pad_len xp (length mem) (int huge) 0 (int pad_len))
              pad_len xp (length mem) (int huge) (- int pad_len) (- int pad_len + int B)"
  have B: "0 < B" using assms(1) huge_arith(3) by (cases B) auto
  have BP: "B \<le> pad_len" using assms(1) huge_arith(3) by (cases p) auto
  have h: "pad_len \<le> pad_len" "pad_len \<le> xp" "pad_len + huge \<le> length mem"
    "xp + huge \<le> length mem" "length mem + huge \<le> length ?mem1"
    using assms(2,3) by simp_all
  have run: "launch (add_kernel pad_len xp (length mem) (int huge) B) [0..<cdiv huge B] ?mem1 = Inr ?F"
    by (rule launch_wrapped[OF assms(1) huge_arith(1,2) h])
  have c1: "?F ! (length mem - pad_len) = ?mem1 ! (pad_len - pad_len) + ?mem1 ! (xp - pad_len)"
    by (rule wrapped_cells(1)[OF B BP huge_arith(2) h])
  have c2: "?F ! (length mem + pad_len) = ?mem1 ! (length mem + pad_len)"
    by (rule wrapped_cells(2)[OF B BP huge_arith(2) h])
  have lm: "0 < length mem" "xp - pad_len < length mem"
    using assms(2,3) huge_arith(3) by linarith+
  have v1: "?mem1 ! (pad_len - pad_len) = mem ! 0" "?mem1 ! (xp - pad_len) = mem ! (xp - pad_len)"
    using lm by (simp_all add: nth_append)
  have v2: "?mem1 ! (length mem + pad_len) = junk pad_len"
    using huge_arith(2) by (simp add: nth_append)
  show ?thesis
    unfolding run using c1 c2 v1 v2 by simp
qed


lemma numel_same: "shape x = shape y \<Longrightarrow> numel y = numel x"
  by (simp add: numel_def)





lemma grid_pid_bound:
  assumes "0 < B" "B dvd 2 ^ 31" "n \<le> 2 ^ 31" "pid < cdiv n B"
  shows "pid * B + B \<le> 2 ^ 31"
proof -
  have "Suc pid * B \<le> cdiv n B * B" using assms(4) by (intro mult_le_mono1) simp
  moreover have "cdiv n B * B \<le> 2 ^ 31" by (rule cdiv_bounds(2)) (rule assms)+
  ultimately show ?thesis by (simp add: add.commute)
qed

lemma take_eqI:
  "length mem \<le> length mem' \<Longrightarrow> \<forall>a<length mem. mem' ! a = mem ! a \<Longrightarrow> take (length mem) mem' = mem"
  by (auto intro!: nth_equalityI)

lemma elems_frame:
  assumes "valid_tensor mem t" "\<forall>a<length mem. mem' ! a = mem ! a"
  shows "elems mem' t = elems mem t"
  unfolding elems_def using assms by (auto simp: valid_tensor_def list_all_iff)

lemma launch_async_grid_frame:
  fixes mem :: "'a::{plus,zero} memory"
  assumes "0 < B" "B dvd 2 ^ 31" "n \<le> 2 ^ 31"
  shows "length (launch_async (add_kernel xp yp (length mem) m B) [0..<cdiv n B] (mem @ cells)) =
       length mem + length cells \<and>
     (\<forall>a<length mem.
        launch_async (add_kernel xp yp (length mem) m B) [0..<cdiv n B] (mem @ cells) ! a = mem ! a)"
proof -
  have b: "\<forall>pid\<in>set [0..<cdiv n B]. pid * B + B \<le> 2 ^ 31"
    using grid_pid_bound[OF assms] by simp
  from launch_async_frame[OF b, of xp yp "length mem" m "mem @ cells"]
  show ?thesis by (simp add: nth_append)
qed

lemma stored_offsets_in_range:
  assumes "pid * B + B \<le> 2 ^ 31"
    and "off \<in> set (stored_offsets (kernel_offsets B pid) (kernel_mask (int n) (kernel_offsets B pid)))"
  shows "0 \<le> off \<and> off < int n"
proof -
  have "int (pid * B + B) \<le> int (2 ^ 31)" using assms(1) by (simp only: of_nat_le_iff)
  then have sB: "int (pid * B) + int B \<le> 2 ^ 31" by simp
  show ?thesis
    using assms(2) unfolding kernel_offsets_block[OF wrap32_nat[OF assms(1)] sB]
    by (auto simp: stored_offsets_def kernel_mask_def zip_map_same simp del: of_nat_add of_nat_mult)
qed

lemma broadcast_rev_same: "broadcast_rev ds ds = Some ds"
  by (induction ds) auto

lemma broadcast_shapes_same: "broadcast_shapes s s = Some s"
  by (simp add: broadcast_shapes_def broadcast_rev_same)

lemma source_index_unravel: "i < prod_list ds \<Longrightarrow> source_index (unravel_rev i ds) ds = i"
proof (induction ds arbitrary: i)
  case Nil
  then show ?case by simp
next
  case (Cons d ds)
  from Cons.prems have d: "0 < d" by (cases d) auto
  from Cons.prems have "i div d < prod_list ds"
    by (simp add: less_mult_imp_div_less mult.commute)
  with Cons.IH have "source_index (unravel_rev (i div d) ds) ds = i div d" by simp
  then show ?case by simp
qed

lemma bcast_index_same: "i < prod_list s \<Longrightarrow> bcast_index s s i = i"
  by (simp add: bcast_index_def source_index_unravel)

lemma cast_same: "map (cast rt d d) xs = xs"
  by (induction xs) (simp_all add: cast_def)

lemma length_elems: "length (elems mem t) = prod_list (shape t)"
  by (simp add: elems_def length_strided_offsets)

lemma torch_add_same:
  fixes mem :: "'a::plus memory"
  assumes "shape x = shape y" "dtype x = dtype y" "device x = device y"
  shows "torch_add rt x y mem =
     Inr (mem @ map2 (+) (elems mem x) (elems mem y),
          \<lparr>shape = shape x, stride = contiguous_strides (shape x), dtype = dtype x,
           device = device x, data_ptr = length mem\<rparr>)"
proof -
  have lx: "length (elems mem x) = prod_list (shape x)" and ly: "length (elems mem y) = prod_list (shape x)"
    using assms(1) by (simp_all add: length_elems)
  have m: "map (\<lambda>i. elems mem x ! bcast_index (shape x) (shape x) i + elems mem y ! bcast_index (shape x) (shape x) i)
          [0..<prod_list (shape x)] = map2 (+) (elems mem x) (elems mem y)"
    using lx ly by (auto intro!: nth_equalityI simp: bcast_index_same)
  have sy: "shape y = shape x" and dy: "dtype y = dtype x" and vy: "device y = device x"
    using assms(1-3) by simp_all
  show ?thesis
    by (simp add: torch_add_def common_device_def broadcast_shapes_same cast_same Let_def sy dy vy m)
qed

lemma torch_add_fails:
  "(\<exists>e. torch_add rt x y mem = Inl e) =
     (common_device x y = Inl DeviceMismatch \<or> broadcast_shapes (shape x) (shape y) = None)"
  by (auto simp: torch_add_def common_device_def Let_def split: sum.splits option.splits if_splits)

lemma ex_broadcast:
  "pytorch_add ex_rt ex_x ex_row ex_mem =
     Inr (ex_mem @ [101, 102, 103],
          \<lparr>shape = [3], stride = [1], dtype = Float32, device = CUDA, data_ptr = 7\<rparr>)"
  by code_simp

lemmas ex_defs = ex_x_def ex_y_def ex_row_def ex_mem_def ex_rt_def is_cuda_def valid_tensor_def
  numel_def is_contiguous_def list_all_iff


lemma huge_mem_nth:
  "k < pad_len \<Longrightarrow> huge_mem ! k = 5"
  "k < huge \<Longrightarrow> huge_mem ! (pad_len + k) = 0"
  "k < huge \<Longrightarrow> huge_mem ! (pad_len + huge + k) = 0"
  by (simp_all add: huge_mem_def nth_append)

lemma huge_cells:
  "length huge_mem = pad_len + huge + huge"
  "huge_mem ! 0 = 5"
  "huge_mem ! huge = 0"
  "huge_mem ! (pad_len + (huge - 1)) = 0"
  "huge_mem ! (pad_len + huge + (huge - 1)) = 0"
  "huge_mem ! (pad_len + huge + 1) = 0"
proof -
  have a: "0 < pad_len" "huge - 1 < huge" "1 < huge" "pad_len + 1 = huge"
    using huge_arith by simp_all
  show "length huge_mem = pad_len + huge + huge" by (simp add: huge_mem_def)
  show "huge_mem ! 0 = 5" by (rule huge_mem_nth(1)[OF a(1)])
  show "huge_mem ! huge = 0" using huge_mem_nth(2)[OF a(3)] unfolding a(4) .
  show "huge_mem ! (pad_len + (huge - 1)) = 0" by (rule huge_mem_nth(2)[OF a(2)])
  show "huge_mem ! (pad_len + huge + (huge - 1)) = 0" by (rule huge_mem_nth(3)[OF a(2)])
  show "huge_mem ! (pad_len + huge + 1) = 0" by (rule huge_mem_nth(3)[OF a(3)])
qed

lemma huge_tensors:
  "shape huge_x = shape huge_y" "dtype huge_x = dtype huge_y" "is_cuda huge_x" "is_cuda huge_y"
  "numel huge_x = huge" "data_ptr huge_x = pad_len" "data_ptr huge_y = pad_len + huge"
  "is_contiguous huge_x" "is_contiguous huge_y"
  "valid_tensor huge_mem huge_x" "valid_tensor huge_mem huge_y"
  by (simp_all add: huge_x_def huge_y_def is_cuda_def numel_def is_contiguous_def
        valid_tensor_def list_all_iff huge_cells(1))

lemma nth_map_upt0: "k < n \<Longrightarrow> map f [0..<n] ! k = f k"
  by simp

lemma huge_elems:
  "k < huge \<Longrightarrow> elems mem huge_x ! k = mem ! (pad_len + k)"
  "k < huge \<Longrightarrow> elems mem huge_y ! k = mem ! (pad_len + huge + k)"
  "k < huge \<Longrightarrow> elems mem (snd (empty_like junk huge_x mem0)) ! k = mem ! (length mem0 + k)"
proof -
  have ny: "numel huge_y = huge" using numel_same[OF huge_tensors(1)] huge_tensors(5) by simp
  have c: "is_contiguous (snd (empty_like junk huge_x mem0))"
    by (rule empty_like_contiguous[OF huge_tensors(8)])
  have no: "numel (snd (empty_like junk huge_x mem0)) = huge" by (simp add: huge_tensors(5))
  have po: "data_ptr (snd (empty_like junk huge_x mem0)) = length mem0" by simp
  assume k: "k < huge"
  show "elems mem huge_x ! k = mem ! (pad_len + k)"
    unfolding elems_contiguous[OF huge_tensors(8)] huge_tensors(5,6) by (rule nth_map_upt0[OF k])
  show "elems mem huge_y ! k = mem ! (pad_len + huge + k)"
    unfolding elems_contiguous[OF huge_tensors(9)] ny huge_tensors(7) by (rule nth_map_upt0[OF k])
  show "elems mem (snd (empty_like junk huge_x mem0)) ! k = mem ! (length mem0 + k)"
    unfolding elems_contiguous[OF c] no po by (rule nth_map_upt0[OF k])
qed


lemma huge_second: "elems huge_mem huge_y ! 1 = 0"
proof -
  have i: "1 < huge" using huge_arith by simp
  show ?thesis unfolding huge_elems(2)[OF i] by (rule huge_cells(6))
qed

lemma wrapped_call:
  assumes "p * B = pad_len"
  shows "\<exists>mem'. launch (add_kernel (data_ptr huge_x) (data_ptr huge_y) (length huge_mem)
                (int (numel huge_x)) B) [0..<cdiv (numel huge_x) B]
                (huge_mem @ map junk [0..<numel huge_x]) = Inr mem' \<and>
       elems mem' huge_y ! 1 = 5 \<and>
       elems mem' (snd (empty_like junk huge_x huge_mem)) ! (huge - 1) = junk (huge - 1)"
proof -
  have h: "pad_len + huge \<le> pad_len + huge" "pad_len + huge + huge \<le> length huge_mem"
    by (simp_all add: huge_cells(1))
  from grid_wrapped[OF assms h, of junk]
  obtain mem' where run: "launch (add_kernel pad_len (pad_len + huge) (length huge_mem) (int huge) B)
        [0..<cdiv huge B] (huge_mem @ map junk [0..<huge]) = Inr mem'"
    and c1: "mem' ! (length huge_mem - pad_len) = huge_mem ! 0 + huge_mem ! (pad_len + huge - pad_len)"
    and c2: "mem' ! (length huge_mem + pad_len) = junk pad_len"
    by blast
  have i1: "length huge_mem - pad_len = pad_len + huge + 1" and i2: "huge - 1 = pad_len"
    and i3: "(1::nat) < huge" and i4: "pad_len < huge" and i5: "pad_len + huge - pad_len = huge"
    using huge_arith by (simp_all add: huge_cells(1))
  have "mem' ! (pad_len + huge + 1) = 5"
    using c1 unfolding i1 i5 huge_cells(2,3) by simp
  then have y1: "elems mem' huge_y ! 1 = 5" unfolding huge_elems(2)[OF i3] .
  have o1: "elems mem' (snd (empty_like junk huge_x huge_mem)) ! (huge - 1) = junk (huge - 1)"
    unfolding i2 huge_elems(3)[OF i4] by (rule c2)
  show ?thesis using run y1 o1 unfolding huge_tensors(5,6,7) by blast
qed

subsection \<open>The kernel executor\<close>




text \<open>
  Claim C2, amended. For every element count \<open>n\<close> and block size \<open>B\<close> whose grid stays within
  32-bit offsets (\<open>cdiv n B * B \<le> 2 ^ 31\<close>), divisible or not, the grid faults nowhere,
  writes the sum at every index below \<open>n\<close> of the output, leaves every cell outside the \<open>n\<close>
  cells of the output as it was, and every offset at which an instance stores lies in
  \<open>[0, n)\<close>. The witness has \<open>n = 5\<close>, \<open>B = 4\<close> and a sixth cell behind the output. As stated,
  for every \<open>n\<close>, the claim fails at \<open>n = 2 ^ 31 + 1\<close>, \<open>B = 1024\<close>: the offsets of the final
  partial block wrap to \<open>- 2 ^ 31\<close> and its mask is true, so index \<open>n - 1\<close> of the output
  keeps its old content 7 while the sum is 0, and the cell \<open>2 ^ 31\<close> places before the
  output, a cell of \<open>y\<close>, is overwritten.
\<close>

theorem add_kernel_mask_boundary:
  fixes mem :: "'a::{plus,zero} memory"
  assumes "x_ptr + n \<le> length mem" "y_ptr + n \<le> length mem" "o_ptr + n \<le> length mem"
    and "x_ptr + n \<le> o_ptr \<or> o_ptr + n \<le> x_ptr" "y_ptr + n \<le> o_ptr \<or> o_ptr + n \<le> y_ptr"
    and "0 < B" "cdiv n B * B \<le> 2 ^ 31"
  shows "\<exists>mem'. launch (add_kernel x_ptr y_ptr o_ptr (int n) B) [0..<cdiv n B] mem = Inr mem' \<and>
      length mem' = length mem \<and>
      (\<forall>i<n. mem' ! (o_ptr + i) = mem ! (x_ptr + i) + mem ! (y_ptr + i)) \<and>
      (\<forall>a. a < length mem \<and> (a < o_ptr \<or> o_ptr + n \<le> a) \<longrightarrow> mem' ! a = mem ! a) \<and>
      (\<forall>pid<cdiv n B. \<forall>off\<in>set (stored_offsets (kernel_offsets B pid)
                                   (kernel_mask (int n) (kernel_offsets B pid))).
          0 \<le> off \<and> off < int n)"
proof -
  let ?R = "block_result mem x_ptr y_ptr o_ptr (int n) 0 (int (cdiv n B * B))"
  have run: "launch (add_kernel x_ptr y_ptr o_ptr (int n) B) [0..<cdiv n B] mem = Inr ?R"
    by (rule launch_add_kernel) (rule assms)+
  have g: "n \<le> cdiv n B * B" by (rule cdiv_bounds(1)) (rule assms(6))
  have a: "\<forall>i<n. ?R ! (o_ptr + i) = mem ! (x_ptr + i) + mem ! (y_ptr + i)"
  proof (intro allI impI)
    fix i assume i: "i < n"
    have q: "o_ptr + i < length mem" using i assms(3) by simp
    have d: "int (o_ptr + i) - int o_ptr = int i" by simp
    have nx: "nat (int x_ptr + int i) = x_ptr + i" and ny: "nat (int y_ptr + int i) = y_ptr + i"
      by (simp_all add: nat_add_distrib)
    have "i < cdiv n B * B" using i g by simp
    then have "int i < int (cdiv n B * B)" by (simp only: of_nat_less_iff)
    then have c: "0 \<le> int i \<and> int i < int (cdiv n B * B) \<and> int i < int n" using i by simp
    show "?R ! (o_ptr + i) = mem ! (x_ptr + i) + mem ! (y_ptr + i)"
      unfolding block_result_nth[OF q] d using c by (simp only: if_True simp_thms nx ny)
  qed
  have b: "\<forall>a. a < length mem \<and> (a < o_ptr \<or> o_ptr + n \<le> a) \<longrightarrow> ?R ! a = mem ! a"
    by (auto intro!: block_result_outside)
  have c: "\<forall>pid<cdiv n B. \<forall>off\<in>set (stored_offsets (kernel_offsets B pid)
                                   (kernel_mask (int n) (kernel_offsets B pid))).
          0 \<le> off \<and> off < int n"
  proof (intro allI impI ballI)
    fix pid off
    assume p: "pid < cdiv n B"
      and o: "off \<in> set (stored_offsets (kernel_offsets B pid) (kernel_mask (int n) (kernel_offsets B pid)))"
    from p have "Suc pid * B \<le> cdiv n B * B" by (intro mult_le_mono1) simp
    with assms(7) have "pid * B + B \<le> 2 ^ 31" by (simp add: add.commute)
    then show "0 \<le> off \<and> off < int n" using o by (rule stored_offsets_in_range)
  qed
  show ?thesis
    unfolding run using a b c by simp
qed

theorem add_kernel_mask_boundary_witness:
  "\<exists>mem'. launch (add_kernel 0 5 10 (int 5) 4) [0..<cdiv 5 4]
        [1, 2, 3, 4, 5, 10, 20, 30, 40, 50, 7, 7, 7, 7, 7, 7 :: int] = Inr mem' \<and>
      mem' ! 14 = 55 \<and> mem' ! 15 = 7"
proof -
  let ?mem = "[1, 2, 3, 4, 5, 10, 20, 30, 40, 50, 7, 7, 7, 7, 7, 7 :: int]"
  have h: "0 + 5 \<le> length ?mem" "5 + 5 \<le> length ?mem" "10 + 5 \<le> length ?mem"
    "(0::nat) + 5 \<le> 10 \<or> (10::nat) + 5 \<le> 0" "(5::nat) + 5 \<le> 10 \<or> (10::nat) + 5 \<le> 5"
    "(0::nat) < 4" "cdiv 5 4 * 4 \<le> 2 ^ 31"
    by (simp_all add: cdiv_def)
  from add_kernel_mask_boundary[OF h]
  obtain mem' where m: "launch (add_kernel 0 5 10 (int 5) 4) [0..<cdiv 5 4] ?mem = Inr mem'"
    and s: "\<forall>i<5. mem' ! (10 + i) = ?mem ! (0 + i) + ?mem ! (5 + i)"
    and k: "\<forall>a. a < length ?mem \<and> (a < 10 \<or> 10 + 5 \<le> a) \<longrightarrow> mem' ! a = ?mem ! a"
    by blast
  from s[rule_format, of 4] have "mem' ! 14 = 55" by simp
  moreover from k[rule_format, of 15] have "mem' ! 15 = 7" by simp
  ultimately show ?thesis using m by blast
qed

theorem add_kernel_mask_overflow_counterexample:
  "\<not> 1024 dvd huge \<and>
   (\<exists>mem'. launch (add_kernel pad_len (pad_len + huge) (length huge_mem) (int huge) 1024)
              [0..<cdiv huge 1024] (huge_mem @ replicate huge 7) = Inr mem' \<and>
       mem' ! (length huge_mem + (huge - 1)) = 7 \<and>
       mem' ! (length huge_mem - pad_len) = 5) \<and>
   huge_mem ! (pad_len + (huge - 1)) + huge_mem ! (pad_len + huge + (huge - 1)) = 0 \<and>
   length huge_mem - pad_len = pad_len + huge + 1 \<and>
   huge_mem ! (pad_len + huge + 1) = 0"
proof -
  obtain p :: nat where p: "p * 1024 = pad_len" by (rule that[of "2 ^ 21"]) (simp add: pad_len_def)
  have h: "pad_len + huge \<le> pad_len + huge" "pad_len + huge + huge \<le> length huge_mem"
    by (simp_all add: huge_cells(1))
  have j: "map (\<lambda>_. 7 :: int) [0..<huge] = replicate huge 7"
    by (simp add: map_replicate_const)
  from grid_wrapped[OF p h, of "\<lambda>_. 7"]
  obtain mem' where run: "launch (add_kernel pad_len (pad_len + huge) (length huge_mem) (int huge) 1024)
        [0..<cdiv huge 1024] (huge_mem @ replicate huge 7) = Inr mem'"
    and c1: "mem' ! (length huge_mem - pad_len) = huge_mem ! 0 + huge_mem ! (pad_len + huge - pad_len)"
    and c2: "mem' ! (length huge_mem + pad_len) = 7"
    unfolding j by blast
  have i: "huge - 1 = pad_len" "length huge_mem - pad_len = pad_len + huge + 1" "\<not> 1024 dvd huge"
    using huge_arith by (simp_all add: huge_cells(1) huge_def)
  have i5: "pad_len + huge - pad_len = huge" by simp
  have m1: "mem' ! (length huge_mem - pad_len) = 5"
    using c1 unfolding i5 huge_cells(2,3) by simp
  have m2: "mem' ! (length huge_mem + (huge - 1)) = 7" unfolding i(1) by (rule c2)
  have e: "\<exists>mem'. launch (add_kernel pad_len (pad_len + huge) (length huge_mem) (int huge) 1024)
              [0..<cdiv huge 1024] (huge_mem @ replicate huge 7) = Inr mem' \<and>
       mem' ! (length huge_mem + (huge - 1)) = 7 \<and>
       mem' ! (length huge_mem - pad_len) = 5"
    using run m1 m2 by blast
  have s: "huge_mem ! (pad_len + (huge - 1)) + huge_mem ! (pad_len + huge + (huge - 1)) = 0"
    unfolding huge_cells(4,5) by simp
  show ?thesis using i(3) e s i(2) huge_cells(6) by blast
qed

text \<open>
  Claim C4. \<open>triton_add\<close> raises its shape assertion when the shapes differ, its device
  assertion when the shapes agree and an input is not on the CUDA device, its dtype
  assertion when those two hold and the dtypes differ; when shapes and dtypes agree and
  both inputs are on the device, the result is none of the three assertions. The function
  has no loop around them: an assertion is its result.
\<close>

theorem triton_add_assertions:
  fixes mem :: "'a::{plus,zero} memory"
  shows "(shape x \<noteq> shape y \<longrightarrow> triton_add junk x y mem = Inl ShapeAssertion) \<and>
     (shape x = shape y \<and> \<not> (is_cuda x \<and> is_cuda y) \<longrightarrow>
        triton_add junk x y mem = Inl DeviceAssertion) \<and>
     (shape x = shape y \<and> is_cuda x \<and> is_cuda y \<and> dtype x \<noteq> dtype y \<longrightarrow>
        triton_add junk x y mem = Inl DtypeAssertion) \<and>
     (shape x = shape y \<and> is_cuda x \<and> is_cuda y \<and> dtype x = dtype y \<longrightarrow>
        triton_add junk x y mem \<notin> {Inl ShapeAssertion, Inl DeviceAssertion, Inl DtypeAssertion})"
proof -
  have "triton_add junk x y mem \<notin> {Inl ShapeAssertion, Inl DeviceAssertion, Inl DtypeAssertion}"
    if "shape x = shape y" "is_cuda x" "is_cuda y" "dtype x = dtype y"
    using that by (simp add: triton_add_launch)
  then show ?thesis by (simp add: triton_add_def)
qed

theorem triton_add_assertions_witness:
  "triton_add (\<lambda>_. 7) ex_x ex_row ex_mem = Inl ShapeAssertion \<and>
   triton_add (\<lambda>_. 7) ex_x (ex_y\<lparr>device := CPU\<rparr>) ex_mem = Inl DeviceAssertion \<and>
   triton_add (\<lambda>_. 7) ex_x (ex_y\<lparr>dtype := Float64\<rparr>) ex_mem = Inl DtypeAssertion \<and>
   triton_add (\<lambda>_. 7) ex_x ex_y ex_mem \<notin> {Inl ShapeAssertion, Inl DeviceAssertion, Inl DtypeAssertion}"
  using triton_add_assertions[of ex_x ex_row "\<lambda>_. 7" ex_mem]
    triton_add_assertions[of ex_x "ex_y\<lparr>device := CPU\<rparr>" "\<lambda>_. 7" ex_mem]
    triton_add_assertions[of ex_x "ex_y\<lparr>dtype := Float64\<rparr>" "\<lambda>_. 7" ex_mem]
    triton_add_assertions[of ex_x ex_y "\<lambda>_. 7" ex_mem]
  by (simp add: ex_x_def ex_y_def ex_row_def is_cuda_def)

text \<open>
  Claim C8, amended. For inputs that meet the preconditions and have at most \<open>2 ^ 31\<close>
  elements, contiguous or not, \<open>triton_add\<close> returns; memory then is the old memory, cell
  for cell, followed by one new storage of as many cells as the inputs have elements, the
  output is that storage, on the inputs' device, and the elements of \<open>x\<close> and of \<open>y\<close> are
  what they were. As stated, for every valid invocation, the claim fails at
  \<open>2 ^ 31 + 1\<close> elements: the block of index \<open>2 ^ 21\<close> has the offsets \<open>- 2 ^ 31\<close> to
  \<open>- 2 ^ 31 + 1023\<close>, its mask is true, and it stores \<open>2 ^ 31\<close> cells before the output
  storage, where the allocator has put \<open>y\<close>: after the call \<open>y[1]\<close> is 5, not 0. No
  exception is raised: \<open>triton_add\<close> returns its output.
\<close>

theorem triton_add_frame:
  fixes mem :: "'a::{plus,zero} memory"
  assumes "shape x = shape y" "dtype x = dtype y" "is_cuda x" "is_cuda y"
    and "valid_tensor mem x" "valid_tensor mem y" "numel x \<le> 2 ^ 31"
  shows "\<exists>mem' out. triton_add junk x y mem = Inr (mem', out) \<and>
      length mem' = length mem + numel x \<and> take (length mem) mem' = mem \<and>
      data_ptr out = length mem \<and> shape out = shape x \<and> device out = device x \<and>
      elems mem' x = elems mem x \<and> elems mem' y = elems mem y"
proof -
  let ?mem' = "launch_async (add_kernel (data_ptr x) (data_ptr y) (length mem) (int (numel x)) 1024)
            [0..<cdiv (numel x) 1024] (mem @ map junk [0..<numel x])"
  have f: "length ?mem' = length mem + length (map junk [0..<numel x]) \<and>
      (\<forall>a<length mem. ?mem' ! a = mem ! a)"
    by (rule launch_async_grid_frame) (use assms(7) in simp_all)
  then have l: "length ?mem' = length mem + numel x" and u: "\<forall>a<length mem. ?mem' ! a = mem ! a"
    by simp_all
  have t: "take (length mem) ?mem' = mem" by (rule take_eqI) (use l u in simp_all)
  have ex: "elems ?mem' x = elems mem x" by (rule elems_frame[OF assms(5) u])
  have ey: "elems ?mem' y = elems mem y" by (rule elems_frame[OF assms(6) u])
  show ?thesis
    unfolding triton_add_launch[OF assms(1-4)] using l t ex ey by simp
qed

theorem triton_add_frame_witness:
  "shape ex_x = shape ex_y \<and> dtype ex_x = dtype ex_y \<and> is_cuda ex_x \<and> is_cuda ex_y \<and>
   valid_tensor ex_mem ex_x \<and> valid_tensor ex_mem ex_y \<and> numel ex_x \<le> 2 ^ 31 \<and>
   (\<exists>mem' out. triton_add (\<lambda>_. 7) ex_x ex_y ex_mem = Inr (mem', out) \<and>
      length mem' = length ex_mem + numel ex_x \<and> take (length ex_mem) mem' = ex_mem \<and>
      elems mem' ex_x = elems ex_mem ex_x \<and> elems mem' ex_y = elems ex_mem ex_y)"
proof -
  have h: "shape ex_x = shape ex_y" "dtype ex_x = dtype ex_y" "is_cuda ex_x" "is_cuda ex_y"
    "valid_tensor ex_mem ex_x" "valid_tensor ex_mem ex_y" "numel ex_x \<le> 2 ^ 31"
    by (simp_all add: ex_defs)
  from triton_add_frame[OF h, of "\<lambda>_. 7"] h show ?thesis by blast
qed

theorem triton_add_frame_counterexample:
  "shape huge_x = shape huge_y \<and> dtype huge_x = dtype huge_y \<and> is_cuda huge_x \<and> is_cuda huge_y \<and>
   valid_tensor huge_mem huge_x \<and> valid_tensor huge_mem huge_y \<and>
   is_contiguous huge_x \<and> is_contiguous huge_y \<and>
   elems huge_mem huge_y ! 1 = 0 \<and>
   (\<exists>mem' out. triton_add (\<lambda>_. 7) huge_x huge_y huge_mem = Inr (mem', out) \<and>
      elems mem' huge_y ! 1 = 5)"
proof -
  obtain p :: nat where p: "p * 1024 = pad_len" by (rule that[of "2 ^ 21"]) (simp add: pad_len_def)
  from wrapped_call[OF p, of "\<lambda>_. 7"]
  obtain mem' where run: "launch (add_kernel (data_ptr huge_x) (data_ptr huge_y) (length huge_mem)
                (int (numel huge_x)) 1024) [0..<cdiv (numel huge_x) 1024]
                (huge_mem @ map (\<lambda>_. 7) [0..<numel huge_x]) = Inr mem'"
    and y1: "elems mem' huge_y ! 1 = 5"
    by blast
  have call: "triton_add (\<lambda>_. 7) huge_x huge_y huge_mem = Inr (mem', snd (empty_like (\<lambda>_. 7) huge_x huge_mem))"
    unfolding triton_add_launch[OF huge_tensors(1-4)] launch_async_eq[OF run] ..
  have h: "\<exists>mem' out. triton_add (\<lambda>_. 7) huge_x huge_y huge_mem = Inr (mem', out) \<and>
      elems mem' huge_y ! 1 = 5"
    using call y1 by blast
  note z = huge_second
  show ?thesis using h z huge_tensors by simp
qed




subsection \<open>The dispatcher and the fallback executor\<close>

text \<open>
  Claim C3. The dispatcher \<open>add\<close> calls the kernel executor exactly when \<open>use_triton\<close> holds,
  both inputs are on the accelerator and an accelerator is available. When that call
  returns, its result is the dispatcher's; when it raises any exception \<open>e\<close>, the dispatcher
  logs a warning carrying \<open>e\<close>, calls the fallback executor and returns its result, which is
  \<open>pytorch_add x y\<close>; in every other case it calls the fallback executor only and returns
  its result.
\<close>

theorem add_dispatch:
  fixes mem :: "'a::{plus,zero} memory"
  shows "(CallTriton \<in> set (fst (add rt x y use_triton mem)) \<longleftrightarrow>
        use_triton \<and> is_cuda x \<and> is_cuda y \<and> cuda_is_available rt) \<and>
     (\<forall>r. use_triton \<and> is_cuda x \<and> is_cuda y \<and> cuda_is_available rt \<and>
          triton_add (uninit rt) x y mem = Inr r \<longrightarrow>
          add rt x y use_triton mem = ([CallTriton], Inr r)) \<and>
     (\<forall>e. use_triton \<and> is_cuda x \<and> is_cuda y \<and> cuda_is_available rt \<and>
          triton_add (uninit rt) x y mem = Inl e \<longrightarrow>
          add rt x y use_triton mem =
            ([CallTriton, LogWarning e, CallPytorch], pytorch_add rt x y mem)) \<and>
     (\<not> (use_triton \<and> is_cuda x \<and> is_cuda y \<and> cuda_is_available rt) \<longrightarrow>
          add rt x y use_triton mem = ([CallPytorch], pytorch_add rt x y mem))"
  by (auto simp: add_def split: sum.splits)

theorem add_dispatch_witness:
  "add ex_rt ex_x ex_row True ex_mem =
     ([CallTriton, LogWarning ShapeAssertion, CallPytorch], pytorch_add ex_rt ex_x ex_row ex_mem) \<and>
   add ex_rt ex_x ex_y False ex_mem = ([CallPytorch], pytorch_add ex_rt ex_x ex_y ex_mem) \<and>
   CallTriton \<in> set (fst (add ex_rt ex_x ex_y True ex_mem))"
proof -
  have t: "triton_add (uninit ex_rt) ex_x ex_row ex_mem = Inl ShapeAssertion"
    by (simp add: triton_add_def ex_x_def ex_row_def)
  have c: "is_cuda ex_x" "is_cuda ex_row" "is_cuda ex_y" "cuda_is_available ex_rt"
    by (simp_all add: ex_defs)
  show ?thesis
    using add_dispatch[of ex_rt ex_x ex_row True ex_mem] add_dispatch[of ex_rt ex_x ex_y False ex_mem]
      add_dispatch[of ex_rt ex_x ex_y True ex_mem] t c
    by simp
qed

text \<open>
  Claim C5, amended. \<open>pytorch_add\<close> returns the element-wise sum whenever \<open>x\<close> and \<open>y\<close> have
  identical shape and dtype and are on one device. It fails exactly when the operands are
  on different devices, neither being a host tensor of no dimension, or when their shapes
  do not broadcast, and then with one of the library's two errors; a difference of dtype
  never makes it fail. As stated the claim fails twice: shapes \<open>[3]\<close> and \<open>[1]\<close> differ and
  the call succeeds, and identical shape and dtype on two devices make it fail.
\<close>

theorem pytorch_add_outcome:
  fixes mem :: "'a::plus memory"
  shows "(shape x = shape y \<and> dtype x = dtype y \<and> device x = device y \<and>
        valid_tensor mem x \<and> valid_tensor mem y \<longrightarrow>
        pytorch_add rt x y mem =
          Inr (mem @ map2 (+) (elems mem x) (elems mem y),
               \<lparr>shape = shape x, stride = contiguous_strides (shape x), dtype = dtype x,
                device = device x, data_ptr = length mem\<rparr>)) \<and>
     ((\<exists>e. pytorch_add rt x y mem = Inl e) \<longleftrightarrow>
        common_device x y = Inl DeviceMismatch \<or> broadcast_shapes (shape x) (shape y) = None) \<and>
     (\<forall>e. pytorch_add rt x y mem = Inl e \<longrightarrow> e = DeviceMismatch \<or> e = BroadcastError)"
proof -
  have "\<forall>e. torch_add rt x y mem = Inl e \<longrightarrow> e = DeviceMismatch \<or> e = BroadcastError"
    by (auto simp: torch_add_def common_device_def Let_def split: sum.splits option.splits if_splits)
  then show ?thesis
    unfolding pytorch_add_def using torch_add_fails[of rt x y mem]
    by (auto simp: torch_add_same)
qed

theorem pytorch_add_outcome_witness:
  "shape ex_x = shape ex_y \<and> dtype ex_x = dtype ex_y \<and> device ex_x = device ex_y \<and>
   valid_tensor ex_mem ex_x \<and> valid_tensor ex_mem ex_y \<and>
   pytorch_add ex_rt ex_x ex_y ex_mem =
     Inr (ex_mem @ [11, 22, 33],
          \<lparr>shape = [3], stride = [1], dtype = Float32, device = CUDA, data_ptr = 7\<rparr>)"
proof -
  have h: "shape ex_x = shape ex_y" "dtype ex_x = dtype ex_y" "device ex_x = device ex_y"
    "valid_tensor ex_mem ex_x" "valid_tensor ex_mem ex_y"
    by (simp_all add: ex_defs)
  have e: "(ex_mem @ map2 (+) (elems ex_mem ex_x) (elems ex_mem ex_y),
        \<lparr>shape = shape ex_x, stride = contiguous_strides (shape ex_x), dtype = dtype ex_x,
         device = device ex_x, data_ptr = length ex_mem\<rparr>) =
      (ex_mem @ [11, 22, 33],
       \<lparr>shape = [3], stride = [1], dtype = Float32, device = CUDA, data_ptr = 7\<rparr>)"
    by code_simp
  from pytorch_add_outcome[of ex_x ex_y ex_mem ex_rt] h
  have "pytorch_add ex_rt ex_x ex_y ex_mem =
      Inr (ex_mem @ map2 (+) (elems ex_mem ex_x) (elems ex_mem ex_y),
        \<lparr>shape = shape ex_x, stride = contiguous_strides (shape ex_x), dtype = dtype ex_x,
         device = device ex_x, data_ptr = length ex_mem\<rparr>)"
    by blast
  then show ?thesis using h unfolding e by blast
qed

theorem pytorch_add_mismatch_counterexample:
  "shape ex_x \<noteq> shape ex_row \<and>
   pytorch_add ex_rt ex_x ex_row ex_mem =
     Inr (ex_mem @ [101, 102, 103],
          \<lparr>shape = [3], stride = [1], dtype = Float32, device = CUDA, data_ptr = 7\<rparr>) \<and>
   shape ex_x = shape (ex_y\<lparr>device := CPU\<rparr>) \<and> dtype ex_x = dtype (ex_y\<lparr>device := CPU\<rparr>) \<and>
   pytorch_add ex_rt ex_x (ex_y\<lparr>device := CPU\<rparr>) ex_mem = Inl DeviceMismatch"
proof -
  have "pytorch_add ex_rt ex_x (ex_y\<lparr>device := CPU\<rparr>) ex_mem = Inl DeviceMismatch"
    by (simp add: pytorch_add_def torch_add_def common_device_def ex_x_def ex_y_def)
  then show ?thesis
    using ex_broadcast by (simp add: ex_x_def ex_y_def ex_row_def)
qed

text \<open>
  Claim C10. When \<open>add\<close> is called, an accelerator being available, with two
  accelerator-resident tensors whose shapes or dtypes differ and whose shapes broadcast
  to \<open>s\<close>, it does not raise: the kernel executor's assertion is caught, a warning is logged,
  and the result is the fallback library's, of shape \<open>s\<close> and of the promoted dtype.
\<close>

theorem add_mismatch_degrades:
  fixes mem :: "'a::{plus,zero} memory"
  assumes "is_cuda x" "is_cuda y" "cuda_is_available rt"
    and "shape x \<noteq> shape y \<or> dtype x \<noteq> dtype y"
    and "broadcast_shapes (shape x) (shape y) = Some s"
  shows "\<exists>e mem' out.
      add rt x y True mem = ([CallTriton, LogWarning e, CallPytorch], Inr (mem', out)) \<and>
      triton_add (uninit rt) x y mem = Inl e \<and> (e = ShapeAssertion \<or> e = DtypeAssertion) \<and>
      pytorch_add rt x y mem = Inr (mem', out) \<and>
      shape out = s \<and> device out = CUDA \<and>
      dtype out = (if dtype x = dtype y then dtype x else result_type rt x y)"
proof -
  have d: "common_device x y = Inr CUDA"
    using assms(1,2) by (simp add: common_device_def is_cuda_def)
  obtain r where p: "pytorch_add rt x y mem = Inr r" and
    r: "shape (snd r) = s" "device (snd r) = CUDA"
       "dtype (snd r) = (if dtype x = dtype y then dtype x else result_type rt x y)"
    by (simp add: pytorch_add_def torch_add_def d assms(5) Let_def)
  define e where "e = (if shape x \<noteq> shape y then ShapeAssertion else DtypeAssertion)"
  have t: "triton_add (uninit rt) x y mem = Inl e"
    using assms(1,2,4) by (auto simp: triton_add_def e_def)
  have e: "e = ShapeAssertion \<or> e = DtypeAssertion" by (simp add: e_def)
  have "add rt x y True mem = ([CallTriton, LogWarning e, CallPytorch], Inr (fst r, snd r))"
    using assms(1-3) by (simp add: add_def t p)
  with t e p r show ?thesis by (metis prod.collapse)
qed

theorem add_mismatch_degrades_witness:
  "is_cuda ex_x \<and> is_cuda ex_row \<and> cuda_is_available ex_rt \<and> shape ex_x \<noteq> shape ex_row \<and>
   broadcast_shapes (shape ex_x) (shape ex_row) = Some [3] \<and>
   (\<exists>e mem' out.
      add ex_rt ex_x ex_row True ex_mem = ([CallTriton, LogWarning e, CallPytorch], Inr (mem', out)) \<and>
      pytorch_add ex_rt ex_x ex_row ex_mem = Inr (mem', out) \<and> shape out = [3])"
proof -
  have h: "is_cuda ex_x" "is_cuda ex_row" "cuda_is_available ex_rt"
    "shape ex_x \<noteq> shape ex_row \<or> dtype ex_x \<noteq> dtype ex_row"
    "broadcast_shapes (shape ex_x) (shape ex_row) = Some [3]"
    by (simp_all add: ex_defs broadcast_shapes_def)
  have n: "shape ex_x \<noteq> shape ex_row" by (simp add: ex_defs)
  from add_mismatch_degrades[OF h, of ex_mem] h(1,2,3,5) n show ?thesis by blast
qed

subsection \<open>The exporter\<close>

text \<open>
  Claim C6. When tracing or scripting, saving, reloading, both runs and the comparison
  return, \<open>export_torchscript_model\<close> returns the serialized model whatever the comparison
  says: a mismatch only puts a warning in the log, between the record that verification
  began, after the save, and the record of completion. An exception of tracing or
  scripting, or of saving, is logged as an error and raised again to the caller.
\<close>

theorem export_verification_soft_failure:
  "(\<forall>sm lm a b ok.
      (if use_trace then jit_trace env else jit_script env) = Inr sm \<and>
      model_save env sm path = None \<and> jit_load env path = Inr lm \<and>
      run_model env = Inr a \<and> run_loaded env lm = Inr b \<and> allclose env a b = Inr ok \<longrightarrow>
      export_torchscript_model env path use_trace =
        ([InfoStart, if use_trace then InfoTraceMode else InfoScriptMode, InfoSave path, InfoVerify,
          if ok then InfoVerifyOk else WarnVerifyMismatch, InfoDone], Inr sm)) \<and>
   (\<forall>e. (if use_trace then jit_trace env else jit_script env) = Inl e \<longrightarrow>
      export_torchscript_model env path use_trace =
        ([InfoStart, if use_trace then InfoTraceMode else InfoScriptMode, ErrorExportFailed e], Inl e)) \<and>
   (\<forall>sm e. (if use_trace then jit_trace env else jit_script env) = Inr sm \<and>
      model_save env sm path = Some e \<longrightarrow>
      export_torchscript_model env path use_trace =
        ([InfoStart, if use_trace then InfoTraceMode else InfoScriptMode, InfoSave path,
          ErrorExportFailed e], Inl e))"
  by (simp add: export_torchscript_model_def export_failed_def Let_def)

theorem export_verification_soft_failure_witness:
  "export_torchscript_model ex_env ''m.pt'' True =
     ([InfoStart, InfoTraceMode, InfoSave ''m.pt'', InfoVerify, WarnVerifyMismatch, InfoDone],
      Inr ''traced'') \<and>
   export_torchscript_model ex_env ''m.pt'' False =
     ([InfoStart, InfoScriptMode, ErrorExportFailed 1], Inl 1) \<and>
   export_torchscript_model ex_env ''/readonly/m.pt'' True =
     ([InfoStart, InfoTraceMode, InfoSave ''/readonly/m.pt'', ErrorExportFailed 2], Inl 2)"
  using export_verification_soft_failure[of True ex_env "''m.pt''"]
    export_verification_soft_failure[of False ex_env "''m.pt''"]
    export_verification_soft_failure[of True ex_env "''/readonly/m.pt''"]
  by (simp add: ex_env_def)

subsection \<open>Benchmark and validation without an accelerator\<close>

text \<open>
  Claim C7. When no accelerator is available, \<open>validate_correctness\<close> returns false, and
  \<open>benchmark_add_operations\<close> returns, without raising and whatever the timings would
  have been, a record that holds the sizes it was asked for and four empty lists: kernel
  latencies, fallback latencies, speedup ratios and accuracy checks.
\<close>

theorem no_accelerator_short_circuit:
  "\<not> torch_cuda_is_available env \<Longrightarrow>
   validate_correctness env test_sizes = False \<and>
   (\<exists>r. benchmark_add_operations env bench_sizes num_runs = Inr r \<and>
      sizes r = (case bench_sizes of None \<Rightarrow> [1000, 10000, 100000, 1000000] | Some s \<Rightarrow> s) \<and>
      triton_times r = [] \<and> pytorch_times r = [] \<and> speedup_ratios r = [] \<and>
      accuracy_checks r = [])"
  by (simp add: validate_correctness_def benchmark_add_operations_def Let_def)

theorem no_accelerator_short_circuit_witness:
  "\<not> torch_cuda_is_available ex_test_env \<and>
   validate_correctness ex_test_env None = False \<and>
   (\<exists>r. benchmark_add_operations ex_test_env (Some [5, 6]) 10 = Inr r \<and> sizes r = [5, 6] \<and>
      triton_times r = [] \<and> pytorch_times r = [] \<and> speedup_ratios r = [] \<and>
      accuracy_checks r = [])"
proof -
  have h: "\<not> torch_cuda_is_available ex_test_env" by (simp add: ex_test_env_def)
  from no_accelerator_short_circuit[OF h, of None "Some [5, 6]" 10] h show ?thesis by simp
qed

end
